theory Spec2Isabelle
  imports Complex_Main
begin

section \<open>Data model (alldebrid/types.go)\<close>

text \<open>
  \<^verbatim>\<open>type Link struct { Filename, URL string; Size int64; DownloadURL string }\<close>.
  Sizes are carried around and compared, never added, so \<open>int64\<close> is read as \<open>int\<close>.
\<close>

record Link =
  Filename :: string
  URL :: string
  Size :: int
  DownloadURL :: string

text \<open>\<^verbatim>\<open>type Error struct { Code, Message string }\<close> and the generic envelope
  \<^verbatim>\<open>APIResponse[T]\<close> of client.go.\<close>

record Error =
  Code :: string
  Message :: string

record 'a APIResponse =
  Status :: string
  Data :: 'a
  Error :: "Error option"

text \<open>
  Modelled from the spec: the declaration of \<^verbatim>\<open>UnrestrictResponse\<close> is not among the
  sources. Its fields are the three that \<^verbatim>\<open>UnrestrictURL\<close> reads from it (\<^verbatim>\<open>Link\<close>,
  \<^verbatim>\<open>Filename\<close>, \<^verbatim>\<open>Filesize\<close>): the download URL, the file name and the size in bytes
  that the specification's unlock operation returns.
\<close>

record UnrestrictResponse =
  ULink :: string
  UFilename :: string
  UFilesize :: int

text \<open>
  \<^verbatim>\<open>type MagnetUpload struct { ID int }\<close>; \<^verbatim>\<open>FileUpload\<close> is declared with the same single
  field, and is the same record here.
\<close>

record MagnetUpload =
  ID :: int

type_synonym FileUpload = MagnetUpload

record UploadResponse =
  Files :: "FileUpload list"
  Magnets :: "MagnetUpload list"

text \<open>
  What one request of the transport client hands back to the calling method: the
  request itself returned an error (network failure, or the \<^verbatim>\<open>OnAfterResponse\<close> hook
  rejecting an HTTP error state), the body did not parse into the expected envelope, or
  the parsed envelope.
\<close>

datatype 'a reply = SendFailed | ParseFailed | Body "'a APIResponse"

text \<open>The errors the client methods build with \<^verbatim>\<open>fmt.Errorf\<close>.\<close>

datatype error = RequestError | ParseError | NoMagnetsUploaded

section \<open>Link unlocker (client.go, UnrestrictURL and unrestrictLink)\<close>

definition UnrestrictURL :: "UnrestrictResponse reply \<Rightarrow> string \<Rightarrow> error + Link" where
  "UnrestrictURL res url =
     (case res of
        SendFailed \<Rightarrow> Inl RequestError
      | ParseFailed \<Rightarrow> Inl ParseError
      | Body result \<Rightarrow>
          Inr \<lparr>Filename = UFilename (Data result), URL = url,
               Size = UFilesize (Data result), DownloadURL = ULink (Data result)\<rparr>)"

text \<open>
  \<^verbatim>\<open>unrestrictLink\<close> writes through the pointer it is given; the model returns the
  updated record. On an error the link is returned as it came.
\<close>

definition unrestrictLink :: "UnrestrictResponse reply \<Rightarrow> Link \<Rightarrow> Link" where
  "unrestrictLink res link =
     (case UnrestrictURL res (URL link) of
        Inl err \<Rightarrow> link
      | Inr unrestrictedLink \<Rightarrow> link\<lparr>DownloadURL := DownloadURL unrestrictedLink\<rparr>)"

section \<open>Job submitter (client.go, UploadMagnet)\<close>

definition UploadMagnet :: "UploadResponse reply \<Rightarrow> error + int" where
  "UploadMagnet res =
     (case res of
        SendFailed \<Rightarrow> Inl RequestError
      | ParseFailed \<Rightarrow> Inl ParseError
      | Body result \<Rightarrow>
          (case Magnets (Data result) of
             [] \<Rightarrow> Inl NoMagnetsUploaded
           | m # _ \<Rightarrow> Inr (ID m)))"

section \<open>Size filter (main.go, run and filterLargeFiles)\<close>

text \<open>
  The conversion \<^verbatim>\<open>float64(n)\<close> of an \<open>int64\<close>. A float64 keeps 53 significant bits and
  an \<open>int64\<close> has up to 64: the lowest \<open>e\<close> bits of the magnitude are rounded off, to the
  nearest multiple of \<open>2^e\<close> and to the even one of two that are equally near. The
  result is the real number that the float64 denotes.
\<close>

definition float64 :: "int \<Rightarrow> real" where
  "float64 n =
     (let m = nat \<bar>n\<bar>;
          e = length (filter (\<lambda>k. 2 ^ (53 + k) \<le> m) [0..<11]);
          q = m div 2 ^ e;
          r = m mod 2 ^ e;
          q' = (if 2 * r > 2 ^ e \<or> (2 * r = 2 ^ e \<and> odd q) then q + 1 else q)
      in (if n < 0 then - 1 else 1) * real (q' * 2 ^ e))"

text \<open>
  \<^verbatim>\<open>func (l *Link) SizeMB() float64 { return float64(l.Size) / 1048576 }\<close>.
  The division of a float64 by \<open>2^20\<close> is exact, and a threshold is a float64, hence a
  real; the comparisons of \<^verbatim>\<open>run\<close> and \<^verbatim>\<open>filterLargeFiles\<close> are those of the reals.
\<close>

definition SizeMB :: "Link \<Rightarrow> real" where
  "SizeMB l = float64 (Size l) / 1048576"

text \<open>
  The filter that \<^verbatim>\<open>run\<close> applies before printing:
  \<^verbatim>\<open>if args.IgnoreFilesSmallerThanMB > 0 { links = lo.Filter(links, func(link, _) bool {
     return link.SizeMB() >= args.IgnoreFilesSmallerThanMB }) }\<close>.
  \<^verbatim>\<open>lo.Filter\<close> keeps, in order, the elements its predicate accepts.
\<close>

definition run_filter :: "real \<Rightarrow> Link list \<Rightarrow> Link list" where
  "run_filter IgnoreFilesSmallerThanMB links =
     (if IgnoreFilesSmallerThanMB > 0
      then filter (\<lambda>link. SizeMB link \<ge> IgnoreFilesSmallerThanMB) links
      else links)"

text \<open>The helper \<^verbatim>\<open>filterLargeFiles\<close> of the same file, which \<^verbatim>\<open>run\<close> does not call.\<close>

fun filterLargeFiles :: "Link list \<Rightarrow> real \<Rightarrow> Link list" where
  "filterLargeFiles [] minSizeMB = []"
| "filterLargeFiles (link # links) minSizeMB =
     (if SizeMB link > minSizeMB
      then link # filterLargeFiles links minSizeMB
      else filterLargeFiles links minSizeMB)"

section \<open>Tree flattener over decoded JSON (flattenTreeWithPath on \<^verbatim>\<open>any\<close>)\<close>

text \<open>
  The values \<^verbatim>\<open>encoding/json\<close> produces for an \<^verbatim>\<open>any\<close>: \<^verbatim>\<open>nil\<close>, \<^verbatim>\<open>bool\<close>, \<^verbatim>\<open>float64\<close>,
  \<^verbatim>\<open>string\<close>, \<^verbatim>\<open>[]any\<close> and \<^verbatim>\<open>map[string]any\<close>. An object is kept as the list of its
  members and read with \<open>map_of\<close>, as the Go code reads the map with \<^verbatim>\<open>v["e"]\<close>.
\<close>

datatype json = JNull | JBool bool | JNum real | JStr string
  | JArr "json list" | JObj "(string \<times> json) list"

text \<open>\<^verbatim>\<open>type FileEntry struct { Link, Path, Name string; Size int64 }\<close>.\<close>

record FileEntry =
  fe_Link :: string
  fe_Path :: string
  fe_Name :: string
  fe_Size :: int

text \<open>
  A type assertion without the \<^verbatim>\<open>, ok\<close> form (\<^verbatim>\<open>n.(string)\<close>, \<^verbatim>\<open>s.(float64)\<close>) panics when
  the value has another dynamic type. Nothing in the package recovers, so a panic ends
  the flattening and every caller above it.
\<close>

datatype panic = TypeAssertion

definition asString :: "json \<Rightarrow> panic + string" where
  "asString v = (case v of JStr s \<Rightarrow> Inr s | _ \<Rightarrow> Inl TypeAssertion)"

definition asFloat64 :: "json \<Rightarrow> panic + real" where
  "asFloat64 v = (case v of JNum x \<Rightarrow> Inr x | _ \<Rightarrow> Inl TypeAssertion)"

text \<open>
  The conversion \<^verbatim>\<open>int64(f)\<close> of a float64 in the range of \<open>int64\<close>: the fraction is
  dropped. Outside that range the result depends on the processor; nothing below
  uses it there.
\<close>

definition int64 :: "real \<Rightarrow> int" where
  "int64 x = (if 0 \<le> x then \<lfloor>x\<rfloor> else \<lceil>x\<rceil>)"

text \<open>
  \<^verbatim>\<open>flattenTreeWithPath(data any, currentPath string) []FileEntry\<close>. The type switch has
  a case for \<^verbatim>\<open>[]any\<close> (the \<^verbatim>\<open>for\<close> loop is \<open>flattenItems\<close>) and one for
  \<^verbatim>\<open>map[string]any\<close>; any other value falls through and yields no entries.
\<close>

function (sequential) flattenTreeWithPath :: "json \<Rightarrow> string \<Rightarrow> panic + FileEntry list"
  and flattenItems :: "json list \<Rightarrow> string \<Rightarrow> panic + FileEntry list"
where
  "flattenTreeWithPath (JArr v) currentPath = flattenItems v currentPath"
| "flattenTreeWithPath (JObj v) currentPath =
     (case map_of v ''e'' of
        Some e \<Rightarrow>
          (case (case map_of v ''n'' of None \<Rightarrow> Inr [] | Some n \<Rightarrow> asString n) of
             Inl p \<Rightarrow> Inl p
           | Inr dirName \<Rightarrow>
               flattenTreeWithPath e
                 (if currentPath = [] then dirName
                  else if dirName \<noteq> [] then currentPath @ ''/'' @ dirName
                  else currentPath))
      | None \<Rightarrow>
          (case map_of v ''l'' of
             None \<Rightarrow> Inr []
           | Some l \<Rightarrow>
               (case map_of v ''n'' of
                  None \<Rightarrow> Inr []
                | Some n \<Rightarrow>
                    (case map_of v ''s'' of
                       None \<Rightarrow> Inr []
                     | Some s \<Rightarrow>
                         (case asString n of
                            Inl p \<Rightarrow> Inl p
                          | Inr fileName \<Rightarrow>
                              (case asString l of
                                 Inl p \<Rightarrow> Inl p
                               | Inr link \<Rightarrow>
                                   (case asFloat64 s of
                                      Inl p \<Rightarrow> Inl p
                                    | Inr sz \<Rightarrow>
                                        Inr [\<lparr>fe_Link = link,
                                              fe_Path = (if currentPath = [] then fileName
                                                         else currentPath @ ''/'' @ fileName),
                                              fe_Name = fileName,
                                              fe_Size = int64 sz\<rparr>])))))))"
| "flattenTreeWithPath _ currentPath = Inr []"
| "flattenItems [] currentPath = Inr []"
| "flattenItems (item # rest) currentPath =
     (case flattenTreeWithPath item currentPath of
        Inl p \<Rightarrow> Inl p
      | Inr files \<Rightarrow>
          (case flattenItems rest currentPath of
             Inl p \<Rightarrow> Inl p
           | Inr others \<Rightarrow> Inr (files @ others)))"
  by pat_completeness auto
termination
proof -
  have key: "size e \<le> size_list (size_prod (\<lambda>_. 0) size) v"
    if "map_of v k = Some e" for v :: "(string \<times> json) list" and k e
    using that by (induction v) (auto split: if_splits)
  show ?thesis
    by (relation "measure (\<lambda>x. case x of Inl (j, p) \<Rightarrow> size j | Inr (js, p) \<Rightarrow> size_list size js)")
       (auto dest!: key)
qed

definition flattenTree :: "json \<Rightarrow> panic + FileEntry list" where
  "flattenTree data = flattenTreeWithPath data []"

subsection \<open>The flattener without paths (alldebrid/types.go, flattenTree)\<close>

text \<open>
  The earlier \<^verbatim>\<open>flattenTree(data interface{}) []FileEntry\<close>, whose entries have no path:
  \<^verbatim>\<open>type FileEntry struct { Link, Name string; Size int64 }\<close>. A directory is entered
  without reading its name.
\<close>

record FileEntry_v1 =
  v1_Link :: string
  v1_Name :: string
  v1_Size :: int

function (sequential) flattenTree_v1 :: "json \<Rightarrow> panic + FileEntry_v1 list"
  and flattenItems_v1 :: "json list \<Rightarrow> panic + FileEntry_v1 list"
where
  "flattenTree_v1 (JArr v) = flattenItems_v1 v"
| "flattenTree_v1 (JObj v) =
     (case map_of v ''e'' of
        Some e \<Rightarrow> flattenTree_v1 e
      | None \<Rightarrow>
          (case map_of v ''l'' of
             None \<Rightarrow> Inr []
           | Some l \<Rightarrow>
               (case map_of v ''n'' of
                  None \<Rightarrow> Inr []
                | Some n \<Rightarrow>
                    (case map_of v ''s'' of
                       None \<Rightarrow> Inr []
                     | Some s \<Rightarrow>
                         (case asString l of
                            Inl p \<Rightarrow> Inl p
                          | Inr link \<Rightarrow>
                              (case asString n of
                                 Inl p \<Rightarrow> Inl p
                               | Inr name \<Rightarrow>
                                   (case asFloat64 s of
                                      Inl p \<Rightarrow> Inl p
                                    | Inr sz \<Rightarrow>
                                        Inr [\<lparr>v1_Link = link, v1_Name = name,
                                              v1_Size = int64 sz\<rparr>])))))))"
| "flattenTree_v1 _ = Inr []"
| "flattenItems_v1 [] = Inr []"
| "flattenItems_v1 (item # rest) =
     (case flattenTree_v1 item of
        Inl p \<Rightarrow> Inl p
      | Inr files \<Rightarrow>
          (case flattenItems_v1 rest of
             Inl p \<Rightarrow> Inl p
           | Inr others \<Rightarrow> Inr (files @ others)))"
  by pat_completeness auto
termination
proof -
  have key: "size e \<le> size_list (size_prod (\<lambda>_. 0) size) v"
    if "map_of v k = Some e" for v :: "(string \<times> json) list" and k e
    using that by (induction v) (auto split: if_splits)
  show ?thesis
    by (relation "measure (\<lambda>x. case x of Inl j \<Rightarrow> size j | Inr js \<Rightarrow> size_list size js)")
       (auto dest!: key)
qed

section \<open>Tree flattener over typed nodes (flattenTreeWithPath on \<^verbatim>\<open>TorrentNode\<close>)\<close>

text \<open>
  \<^verbatim>\<open>type TorrentNode struct { Name string `json:"n"`; Link string `json:"l"`;
     Size float64 `json:"s"`; Entries []TorrentNode `json:"e"` }\<close>.
\<close>

datatype TorrentNode =
  TorrentNode (tn_Name: string) (tn_Link: string) (tn_Size: real) (tn_Entries: "TorrentNode list")

definition IsFile :: "TorrentNode \<Rightarrow> bool" where
  "IsFile tn = (tn_Link tn \<noteq> [])"

definition IsDirectory :: "TorrentNode \<Rightarrow> bool" where
  "IsDirectory tn = (length (tn_Entries tn) > 0)"

fun flattenTreeWithPath_typed :: "TorrentNode \<Rightarrow> string \<Rightarrow> FileEntry list"
  and flattenEntries_typed :: "TorrentNode list \<Rightarrow> string \<Rightarrow> FileEntry list"
where
  "flattenTreeWithPath_typed (TorrentNode name link sz entries) currentPath =
     (if IsFile (TorrentNode name link sz entries) then
        [\<lparr>fe_Link = link,
          fe_Path = (if currentPath = [] then name else currentPath @ ''/'' @ name),
          fe_Name = name,
          fe_Size = int64 sz\<rparr>]
      else if IsDirectory (TorrentNode name link sz entries) then
        flattenEntries_typed entries
          (if currentPath = [] then name
           else if name \<noteq> [] then currentPath @ ''/'' @ name
           else currentPath)
      else [])"
| "flattenEntries_typed [] newPath = []"
| "flattenEntries_typed (entry # entries) newPath =
     flattenTreeWithPath_typed entry newPath @ flattenEntries_typed entries newPath"

text \<open>\<^verbatim>\<open>flattenTree(nodes []TorrentNode)\<close>: every root is flattened from the empty path.\<close>

fun flattenTree_typed :: "TorrentNode list \<Rightarrow> FileEntry list" where
  "flattenTree_typed [] = []"
| "flattenTree_typed (node # nodes) = flattenTreeWithPath_typed node [] @ flattenTree_typed nodes"

subsection \<open>Decoding a JSON tree into typed nodes\<close>

text \<open>
  What \<^verbatim>\<open>json.Unmarshal\<close> does with the struct above, for objects whose keys are spelled
  as the tags are: a missing member or \<^verbatim>\<open>null\<close> leaves the field at its zero value, a
  member of the field's JSON type sets it, and a member of another type is an
  unmarshal error (\<open>None\<close>), which the client reports as a failed poll.
\<close>

definition decodeString :: "json option \<Rightarrow> string option" where
  "decodeString f = (case f of None \<Rightarrow> Some [] | Some JNull \<Rightarrow> Some []
                     | Some (JStr s) \<Rightarrow> Some s | Some _ \<Rightarrow> None)"

definition decodeFloat64 :: "json option \<Rightarrow> real option" where
  "decodeFloat64 f = (case f of None \<Rightarrow> Some 0 | Some JNull \<Rightarrow> Some 0
                      | Some (JNum x) \<Rightarrow> Some x | Some _ \<Rightarrow> None)"

function (sequential) decodeNode :: "json \<Rightarrow> TorrentNode option"
  and decodeNodes :: "json list \<Rightarrow> TorrentNode list option"
where
  "decodeNode JNull = Some (TorrentNode [] [] 0 [])"
| "decodeNode (JObj v) =
     (case decodeString (map_of v ''n'') of
        None \<Rightarrow> None
      | Some name \<Rightarrow>
          (case decodeString (map_of v ''l'') of
             None \<Rightarrow> None
           | Some link \<Rightarrow>
               (case decodeFloat64 (map_of v ''s'') of
                  None \<Rightarrow> None
                | Some sz \<Rightarrow>
                    (case map_of v ''e'' of
                       None \<Rightarrow> Some (TorrentNode name link sz [])
                     | Some JNull \<Rightarrow> Some (TorrentNode name link sz [])
                     | Some (JArr items) \<Rightarrow>
                         (case decodeNodes items of
                            None \<Rightarrow> None
                          | Some entries \<Rightarrow> Some (TorrentNode name link sz entries))
                     | Some _ \<Rightarrow> None))))"
| "decodeNode _ = None"
| "decodeNodes [] = Some []"
| "decodeNodes (item # rest) =
     (case decodeNode item of
        None \<Rightarrow> None
      | Some node \<Rightarrow>
          (case decodeNodes rest of
             None \<Rightarrow> None
           | Some nodes \<Rightarrow> Some (node # nodes)))"
  by pat_completeness auto
termination
proof -
  have key: "size e \<le> size_list (size_prod (\<lambda>_. 0) size) v"
    if "map_of v k = Some e" for v :: "(string \<times> json) list" and k e
    using that by (induction v) (auto split: if_splits)
  show ?thesis
    by (relation "measure (\<lambda>x. case x of Inl j \<Rightarrow> size j | Inr js \<Rightarrow> size_list size js)")
       (auto dest!: key)
qed

text \<open>The member \<^verbatim>\<open>files\<close> of a magnet, decoded into \<^verbatim>\<open>[]TorrentNode\<close>.\<close>

definition decodeFiles :: "json \<Rightarrow> TorrentNode list option" where
  "decodeFiles data =
     (case data of JNull \<Rightarrow> Some [] | JArr items \<Rightarrow> decodeNodes items | _ \<Rightarrow> None)"

section \<open>Shapes of nodes\<close>

text \<open>
  The path rule as the specification words it: the parent path, a slash and the name
  when both are non-empty, else whichever of the two is non-empty, else empty.
\<close>

definition spec_childPath :: "string \<Rightarrow> string \<Rightarrow> string" where
  "spec_childPath parentPath name =
     (if parentPath \<noteq> [] \<and> name \<noteq> [] then parentPath @ ''/'' @ name
      else if parentPath \<noteq> [] then parentPath
      else name)"

text \<open>
  A node that is neither a file in the specification's sense (it has a link and a
  size) nor a directory (it has a children member): an object with no \<^verbatim>\<open>e\<close> that lacks
  \<^verbatim>\<open>l\<close> or \<^verbatim>\<open>s\<close>, or a value that is neither an object nor an array.
\<close>

fun malformed :: "json \<Rightarrow> bool" where
  "malformed (JObj v) = (map_of v ''e'' = None \<and> (map_of v ''l'' = None \<or> map_of v ''s'' = None))"
| "malformed (JArr items) = False"
| "malformed _ = True"

text \<open>
  Trees on which no type assertion of the flattener can fail: wherever the code
  asserts a type, the member has it. A directory's name, when present, is a string; an
  object with \<^verbatim>\<open>l\<close>, \<^verbatim>\<open>n\<close> and \<^verbatim>\<open>s\<close> (and no \<^verbatim>\<open>e\<close>) has strings for the first two and a
  number for the third.
\<close>

inductive well_typed :: "json \<Rightarrow> bool" where
  wt_null: "well_typed JNull"
| wt_bool: "well_typed (JBool b)"
| wt_num: "well_typed (JNum x)"
| wt_str: "well_typed (JStr s)"
| wt_arr: "list_all well_typed items \<Longrightarrow> well_typed (JArr items)"
| wt_dir: "map_of v ''e'' = Some e \<Longrightarrow> well_typed e \<Longrightarrow>
           map_of v ''n'' = None \<or> (\<exists>s. map_of v ''n'' = Some (JStr s)) \<Longrightarrow>
           well_typed (JObj v)"
| wt_file: "map_of v ''e'' = None \<Longrightarrow> map_of v ''l'' = Some (JStr l) \<Longrightarrow>
            map_of v ''n'' = Some (JStr n) \<Longrightarrow> map_of v ''s'' = Some (JNum x) \<Longrightarrow>
            well_typed (JObj v)"
| wt_other: "map_of v ''e'' = None \<Longrightarrow>
             map_of v ''l'' = None \<or> map_of v ''n'' = None \<or> map_of v ''s'' = None \<Longrightarrow>
             well_typed (JObj v)"

text \<open>
  The two shapes of the specification's data model. A file node has exactly a
  non-empty link, a name and a size, and no children; a directory node has a list of
  children, possibly a name, and no link.
\<close>

inductive wf_node :: "json \<Rightarrow> bool" where
  wf_file: "fst ` set v \<subseteq> {''n'', ''l'', ''s''} \<Longrightarrow>
            map_of v ''l'' = Some (JStr l) \<Longrightarrow> l \<noteq> [] \<Longrightarrow>
            map_of v ''n'' = Some (JStr n) \<Longrightarrow> map_of v ''s'' = Some (JNum x) \<Longrightarrow>
            wf_node (JObj v)"
| wf_dir: "fst ` set v \<subseteq> {''n'', ''e''} \<Longrightarrow>
           map_of v ''e'' = Some (JArr items) \<Longrightarrow> list_all wf_node items \<Longrightarrow>
           map_of v ''n'' = None \<or> (\<exists>n. map_of v ''n'' = Some (JStr n)) \<Longrightarrow>
           wf_node (JObj v)"

definition wf_tree :: "json \<Rightarrow> bool" where
  "wf_tree data = (case data of JArr nodes \<Rightarrow> list_all wf_node nodes | _ \<Rightarrow> False)"

section \<open>Poll-and-resolve orchestrator (client.go, GetTorrentLinks and WaitForDownloadLinks)\<close>

text \<open>
  \<^verbatim>\<open>GetTorrentLinks\<close> decodes the reply into \<^verbatim>\<open>APIResponse[MagnetFilesResponse]\<close> and calls
  \<^verbatim>\<open>flattenTree\<close> on the files of the first magnet. With the declarations
  \<^verbatim>\<open>type MagnetFilesResponse struct { Magnets []MagnetFiles }\<close> and
  \<^verbatim>\<open>type MagnetFiles struct { Files []TorrentNode }\<close> the tree arrives as typed nodes and
  the flattener is the one over \<^verbatim>\<open>TorrentNode\<close>.
\<close>

record MagnetFiles =
  mf_Files :: "TorrentNode list"

record MagnetFilesResponse =
  mfr_Magnets :: "MagnetFiles list"

text \<open>
  No magnet in the reply is \<^verbatim>\<open>return nil, nil\<close>: success with no link. Otherwise the
  tree of the first magnet is flattened and every entry becomes a fresh \<^verbatim>\<open>Link\<close> whose
  \<^verbatim>\<open>DownloadURL\<close> is not set.
\<close>

definition GetTorrentLinks :: "MagnetFilesResponse reply \<Rightarrow> error + Link list" where
  "GetTorrentLinks res =
     (case res of
        SendFailed \<Rightarrow> Inl RequestError
      | ParseFailed \<Rightarrow> Inl ParseError
      | Body result \<Rightarrow>
          (case mfr_Magnets (Data result) of
             [] \<Rightarrow> Inr []
           | m # _ \<Rightarrow>
               Inr (map (\<lambda>file. \<lparr>Filename = fe_Name file, URL = fe_Link file,
                                  Size = fe_Size file, DownloadURL = []\<rparr>)
                        (flattenTree_typed (mf_Files m)))))"

text \<open>The two values of \<^verbatim>\<open>ctx.Err()\<close> once a context is done.\<close>

datatype ctx_err = Canceled | DeadlineExceeded

text \<open>
  One pass through the \<^verbatim>\<open>select\<close> of the loop: either the context's \<^verbatim>\<open>Done\<close> channel was
  received from, with the context's error, or the ticker's channel was, and then the
  reply that the poll request of this pass gets.
\<close>

datatype select_case = CtxDone ctx_err | TickC "MagnetFilesResponse reply"

text \<open>
  The records the loop logs at level Warn: a failed poll with its error and attempt
  number, and the timeout with the number of attempts made. The Debug records are
  left out.
\<close>

datatype warning = PollFailed error nat | TimeoutReached nat

text \<open>
  The fan-out: one goroutine per link calls \<^verbatim>\<open>unrestrictLink\<close> on its own pointer, and
  \<^verbatim>\<open>wg.Wait()\<close> joins them all. The links are distinct allocations of
  \<^verbatim>\<open>GetTorrentLinks\<close>, so no goroutine touches another's link, and the outcome is that
  of calling \<^verbatim>\<open>unrestrictLink\<close> on each element. The reply of the unlock request for the
  link at index \<open>i\<close> is \<open>unlock i\<close>.
\<close>

fun unrestrictAll :: "(nat \<Rightarrow> UnrestrictResponse reply) \<Rightarrow> nat \<Rightarrow> Link list \<Rightarrow> Link list" where
  "unrestrictAll unlock i [] = []"
| "unrestrictAll unlock i (l # links) = unrestrictLink (unlock i) l # unrestrictAll unlock (Suc i) links"

text \<open>
  The \<^verbatim>\<open>for { select { ... } }\<close> loop of \<^verbatim>\<open>WaitForDownloadLinks\<close>, run on the sequence of
  select cases the environment produces. \<open>attempts\<close> is the local counter and \<open>warns\<close>
  the Warn records written so far. The function returns \<^verbatim>\<open>(nil, ctx.Err())\<close> or
  \<^verbatim>\<open>(links, nil)\<close>, here \<open>Inl\<close> and \<open>Inr\<close>; \<open>None\<close> says that the loop is still blocked in
  \<^verbatim>\<open>select\<close> when the given sequence ends.
\<close>

fun WaitForDownloadLinks_loop ::
  "(nat \<Rightarrow> UnrestrictResponse reply) \<Rightarrow> nat \<Rightarrow> warning list \<Rightarrow> select_case list \<Rightarrow>
     ((ctx_err + Link list) \<times> warning list) option"
where
  "WaitForDownloadLinks_loop unlock attempts warns [] = None"
| "WaitForDownloadLinks_loop unlock attempts warns (CtxDone err # rest) =
     Some (Inl err, warns @ [TimeoutReached attempts])"
| "WaitForDownloadLinks_loop unlock attempts warns (TickC res # rest) =
     (case GetTorrentLinks res of
        Inl err \<Rightarrow>
          WaitForDownloadLinks_loop unlock (Suc attempts)
            (warns @ [PollFailed err (Suc attempts)]) rest
      | Inr links \<Rightarrow>
          if length links > 0
          then Some (Inr (unrestrictAll unlock 0 links), warns)
          else WaitForDownloadLinks_loop unlock (Suc attempts) warns rest)"

text \<open>A pass that leaves the loop polling: a tick whose poll failed or found no file.\<close>

definition notReady :: "select_case \<Rightarrow> bool" where
  "notReady c =
     (case c of
        CtxDone err \<Rightarrow> False
      | TickC res \<Rightarrow> (case GetTorrentLinks res of Inl err \<Rightarrow> True | Inr links \<Rightarrow> links = []))"

text \<open>The Warn records of a run of passes, the first of which is attempt \<open>Suc attempts\<close>.\<close>

fun pollWarnings :: "nat \<Rightarrow> select_case list \<Rightarrow> warning list" where
  "pollWarnings attempts [] = []"
| "pollWarnings attempts (CtxDone err # rest) = pollWarnings attempts rest"
| "pollWarnings attempts (TickC res # rest) =
     (case GetTorrentLinks res of
        Inl err \<Rightarrow> [PollFailed err (Suc attempts)]
      | Inr links \<Rightarrow> []) @ pollWarnings (Suc attempts) rest"

subsection \<open>Which select case fires: the clock\<close>

text \<open>
  Times are nanoseconds since the call started, as \<^verbatim>\<open>time.Duration\<close> counts them.
  \<^verbatim>\<open>time.NewTicker(10 * time.Second)\<close> delivers its first tick one period after its
  creation and then one per period, keeping at most one undelivered tick.
\<close>

definition pollInterval :: int where
  "pollInterval = 10 * 1000000000"

text \<open>
  \<^verbatim>\<open>context.WithTimeout(ctx, timeout)\<close>: the derived context is done when the caller's
  context is done, with the caller's error, or when the timeout has passed, with
  \<^verbatim>\<open>DeadlineExceeded\<close>, whichever comes first. The caller's context is given by the time
  at which its \<^verbatim>\<open>Done\<close> channel is closed and its error, or \<open>None\<close> when it is never done.
  A timer never fires early, but the deadline's timer cancels the context in a
  goroutine of its own, so the \<^verbatim>\<open>Done\<close> channel is closed \<open>cancelLag\<close> after the deadline;
  the delay is the runtime's, not the program's.
\<close>

definition WithTimeout :: "(int \<times> ctx_err) option \<Rightarrow> int \<Rightarrow> int \<Rightarrow> int \<times> ctx_err" where
  "WithTimeout parent timeout cancelLag =
     (let closedAt = timeout + max 0 cancelLag in
      case parent of
        None \<Rightarrow> (closedAt, DeadlineExceeded)
      | Some (t, err) \<Rightarrow> if t \<le> closedAt then (t, err) else (closedAt, DeadlineExceeded))"

text \<open>
  What the environment decides for one pass: whether \<^verbatim>\<open>select\<close> picks the context's
  channel should both channels be ready at the same instant (\<open>onTie\<close>), how late after
  its nominal time the tick is delivered (\<open>late\<close>), and, when the tick is taken, how
  long the poll request takes and its reply. A request that the context or the
  client's own timeout cuts short is a reply \<open>SendFailed\<close>.
\<close>

record poll =
  onTie :: bool
  late :: int
  took :: int
  answer :: "MagnetFilesResponse reply"

text \<open>The first tick strictly after time \<open>t\<close>: the ticker drops ticks nobody waited for.\<close>

definition nextTickAfter :: "int \<Rightarrow> int" where
  "nextTickAfter t = (t div pollInterval + 1) * pollInterval"

text \<open>
  The select cases of a run, each with the time at which it is taken. At time \<open>now\<close>
  the loop enters \<^verbatim>\<open>select\<close>; the context's channel is ready from \<open>doneAt\<close> on and the
  ticker's from \<open>nextTick\<close> plus the tick's lateness on. The channel that is ready
  first is received from; \<open>onTie\<close> decides between two that are ready at the same
  instant. After a tick the loop is back at \<^verbatim>\<open>select\<close> when the poll has returned.
\<close>

fun timed_cases :: "int \<times> ctx_err \<Rightarrow> int \<Rightarrow> int \<Rightarrow> poll list \<Rightarrow> (int \<times> select_case) list" where
  "timed_cases (doneAt, err) now nextTick [] =
     (if max now doneAt < max now nextTick then [(max now doneAt, CtxDone err)] else [])"
| "timed_cases (doneAt, err) now nextTick (p # ps) =
     (if max now doneAt < max now (nextTick + max 0 (late p)) \<or>
         (max now doneAt = max now (nextTick + max 0 (late p)) \<and> onTie p)
      then [(max now doneAt, CtxDone err)]
      else (max now (nextTick + max 0 (late p)), TickC (answer p)) #
             timed_cases (doneAt, err) (max now (nextTick + max 0 (late p)) + max 0 (took p))
               (nextTickAfter (max now (nextTick + max 0 (late p)))) ps)"

definition WaitForDownloadLinks ::
  "(int \<times> ctx_err) option \<Rightarrow> int \<Rightarrow> int \<Rightarrow> poll list \<Rightarrow> (nat \<Rightarrow> UnrestrictResponse reply) \<Rightarrow>
     ((ctx_err + Link list) \<times> warning list) option"
where
  "WaitForDownloadLinks parent timeout cancelLag polls unlock =
     WaitForDownloadLinks_loop unlock 0 []
       (map snd (timed_cases (WithTimeout parent timeout cancelLag) 0 pollInterval polls))"

section \<open>Properties of the link unlocker\<close>

lemma unrestrictLink_failed:
  "UnrestrictURL res (URL link) = Inl err \<Longrightarrow> unrestrictLink res link = link"
  by (simp add: unrestrictLink_def)

lemma unrestrictLink_ok:
  "UnrestrictURL res (URL link) = Inr u \<Longrightarrow>
     unrestrictLink res link = link\<lparr>DownloadURL := DownloadURL u\<rparr>"
  by (simp add: unrestrictLink_def)

lemma UnrestrictURL_ok_iff:
  "UnrestrictURL res url = Inr u \<longleftrightarrow>
     (\<exists>result. res = Body result \<and>
        u = \<lparr>Filename = UFilename (Data result), URL = url,
             Size = UFilesize (Data result), DownloadURL = ULink (Data result)\<rparr>)"
  by (auto simp: UnrestrictURL_def split: reply.splits)

text \<open>
  C8. Whatever the unlock request returns, \<^verbatim>\<open>unrestrictLink\<close> leaves the filename, the
  source URL and the size of the link it is given as they were; the only field it can
  change is the download URL, which it sets to the unlocked URL on success and leaves
  untouched on failure.
\<close>

theorem unrestrictLink_frame:
  "Filename (unrestrictLink res link) = Filename link \<and>
   URL (unrestrictLink res link) = URL link \<and>
   Size (unrestrictLink res link) = Size link \<and>
   DownloadURL (unrestrictLink res link) =
     (case UnrestrictURL res (URL link) of
        Inl err \<Rightarrow> DownloadURL link
      | Inr u \<Rightarrow> DownloadURL u)"
  by (simp add: unrestrictLink_def split: sum.split)

section \<open>Properties of the job submitter\<close>

text \<open>
  C7. When the parsed upload envelope lists no magnet, \<^verbatim>\<open>UploadMagnet\<close> fails with the
  "no magnets uploaded" error and yields no identifier; when it lists at least one, the
  call returns the identifier of the first. No other reply makes the call succeed.
\<close>

theorem UploadMagnet_result:
  "(Magnets (Data result) = [] \<longrightarrow> UploadMagnet (Body result) = Inl NoMagnetsUploaded) \<and>
   (\<forall>m ms. Magnets (Data result) = m # ms \<longrightarrow> UploadMagnet (Body result) = Inr (ID m)) \<and>
   (\<forall>res i. UploadMagnet res = Inr i \<longrightarrow>
      (\<exists>r m ms. res = Body r \<and> Magnets (Data r) = m # ms \<and> i = ID m))"
  by (auto simp: UploadMagnet_def split: reply.splits list.splits)

theorem UploadMagnet_result_witness:
  "UploadMagnet (Body \<lparr>Status = ''success'', Data = \<lparr>Files = [], Magnets = []\<rparr>, Error = None\<rparr>)
     = Inl NoMagnetsUploaded \<and>
   UploadMagnet (Body \<lparr>Status = ''success'',
       Data = \<lparr>Files = [], Magnets = [\<lparr>ID = 7\<rparr>, \<lparr>ID = 9\<rparr>]\<rparr>, Error = None\<rparr>)
     = Inr 7"
  using UploadMagnet_result
          [of "\<lparr>Status = ''success'', Data = \<lparr>Files = [], Magnets = []\<rparr>, Error = None\<rparr>"]
        UploadMagnet_result
          [of "\<lparr>Status = ''success'',
                Data = \<lparr>Files = [], Magnets = [\<lparr>ID = 7\<rparr>, \<lparr>ID = 9\<rparr>]\<rparr>, Error = None\<rparr>"]
  by simp

section \<open>Properties of the size filter\<close>

lemma upt_0_11: "[0..<11] = [0, 1, 2, 3, 4, 5, 6, 7, 8, 9, 10 :: nat]"
  by code_simp

text \<open>Up to \<open>2^53\<close> in magnitude the conversion to float64 is exact.\<close>

lemma float64_exact_below:
  assumes "\<bar>n\<bar> < 2 ^ 53"
  shows "float64 n = real_of_int n"
proof -
  let ?m = "nat \<bar>n\<bar>"
  have m: "?m < 2 ^ 53"
    using assms by (simp add: nat_less_iff)
  have "\<not> (2::nat) ^ (53 + k) \<le> ?m" for k
  proof -
    have "(2::nat) ^ 53 \<le> 2 ^ (53 + k)"
      by (rule power_increasing) simp_all
    with m show ?thesis by linarith
  qed
  then have "filter (\<lambda>k. 2 ^ (53 + k) \<le> ?m) [0..<11] = []"
    by (simp add: filter_empty_conv)
  then show ?thesis
    by (simp add: float64_def Let_def)
qed

lemma float64_exact:
  assumes "\<bar>n\<bar> \<le> 2 ^ 53"
  shows "float64 n = real_of_int n"
proof (cases "\<bar>n\<bar> < 2 ^ 53")
  case True
  then show ?thesis by (rule float64_exact_below)
next
  case False
  with assms have "n = 9007199254740992 \<or> n = - 9007199254740992"
    by auto
  moreover have "float64 9007199254740992 = 9007199254740992"
    by (simp add: float64_def upt_0_11 Let_def)
  moreover have "float64 (- 9007199254740992) = - 9007199254740992"
    by (simp add: float64_def upt_0_11 Let_def)
  ultimately show ?thesis
    by (elim disjE) simp_all
qed

text \<open>Above \<open>2^53\<close> it rounds: \<open>2^53 + 3\<close> lies between two floats and goes to the even one.\<close>

lemma float64_rounds: "float64 9007199254740995 = 9007199254740996"
  by (simp add: float64_def upt_0_11 Let_def)

lemma filterLargeFiles_filter:
  "filterLargeFiles links m = filter (\<lambda>l. m < SizeMB l) links"
  by (induction links) auto

text \<open>The unused helper compares strictly: it drops an entry of exactly the threshold.\<close>

lemma filterLargeFiles_strict:
  "filterLargeFiles [\<lparr>Filename = ''b'', URL = ''u'', Size = 5242880, DownloadURL = ''''\<rparr>] 5 = []"
  by (simp add: SizeMB_def float64_exact)

text \<open>
  C6 as stated fails for sizes that float64 cannot hold. The filter compares the
  threshold with \<^verbatim>\<open>float64(size) / 1048576\<close>. A size of \<open>2^53 + 3\<close> bytes becomes the
  float \<open>2^53 + 4\<close>, so with the threshold \<open>2^33 + 2^-18\<close> the entry is kept although its
  size in bytes divided by 1,048,576 is below the threshold.
\<close>

theorem run_filter_rounds_size:
  "run_filter (8589934592 + 1 / 262144)
     [\<lparr>Filename = ''big'', URL = ''u'', Size = 9007199254740995, DownloadURL = ''''\<rparr>]
   = [\<lparr>Filename = ''big'', URL = ''u'', Size = 9007199254740995, DownloadURL = ''''\<rparr>] \<and>
   \<not> (8589934592 + 1 / 262144 \<le> real_of_int 9007199254740995 / 1048576)"
  by (simp add: run_filter_def SizeMB_def float64_rounds)

text \<open>
  C6 as amended. The size filter of \<^verbatim>\<open>run\<close> returns the list as it is for a threshold
  that is zero or negative. For a positive threshold it returns, in their original
  order, the entries whose size, converted to float64 and divided by 1,048,576, is at
  least the threshold; when every size is at most \<open>2^53\<close> bytes these are exactly the
  entries whose size in bytes divided by 1,048,576 is at least the threshold. With
  threshold 5.0 and sizes 1,048,576 / 5,242,880 / 10,485,760 the second and third
  entries are kept.
\<close>

theorem run_filter_exact_sizes:
  "(minMB \<le> 0 \<longrightarrow> run_filter minMB links = links) \<and>
   (0 < minMB \<longrightarrow>
      run_filter minMB links = filter (\<lambda>l. minMB \<le> float64 (Size l) / 1048576) links) \<and>
   (0 < minMB \<and> (\<forall>l\<in>set links. \<bar>Size l\<bar> \<le> 2 ^ 53) \<longrightarrow>
      run_filter minMB links = filter (\<lambda>l. minMB \<le> real_of_int (Size l) / 1048576) links) \<and>
   run_filter 5
     [\<lparr>Filename = ''a'', URL = ''u1'', Size = 1048576, DownloadURL = ''d1''\<rparr>,
      \<lparr>Filename = ''b'', URL = ''u2'', Size = 5242880, DownloadURL = ''d2''\<rparr>,
      \<lparr>Filename = ''c'', URL = ''u3'', Size = 10485760, DownloadURL = ''d3''\<rparr>]
   = [\<lparr>Filename = ''b'', URL = ''u2'', Size = 5242880, DownloadURL = ''d2''\<rparr>,
      \<lparr>Filename = ''c'', URL = ''u3'', Size = 10485760, DownloadURL = ''d3''\<rparr>]"
proof -
  have exact: "run_filter minMB links = filter (\<lambda>l. minMB \<le> real_of_int (Size l) / 1048576) links"
    if "0 < minMB" and "\<forall>l\<in>set links. \<bar>Size l\<bar> \<le> 2 ^ 53"
  proof -
    have eq: "(minMB \<le> SizeMB l) = (minMB \<le> real_of_int (Size l) / 1048576)"
      if "l \<in> set links" for l
    proof -
      from that \<open>\<forall>l\<in>set links. \<bar>Size l\<bar> \<le> 2 ^ 53\<close> have "\<bar>Size l\<bar> \<le> 2 ^ 53"
        by blast
      then have "float64 (Size l) = real_of_int (Size l)"
        by (rule float64_exact)
      then show ?thesis
        by (simp only: SizeMB_def)
    qed
    have "filter (\<lambda>l. minMB \<le> SizeMB l) links
        = filter (\<lambda>l. minMB \<le> real_of_int (Size l) / 1048576) links"
      by (rule filter_cong [OF refl]) (rule eq)
    with \<open>0 < minMB\<close> show ?thesis
      by (simp add: run_filter_def)
  qed
  have example: "run_filter 5
     [\<lparr>Filename = ''a'', URL = ''u1'', Size = 1048576, DownloadURL = ''d1''\<rparr>,
      \<lparr>Filename = ''b'', URL = ''u2'', Size = 5242880, DownloadURL = ''d2''\<rparr>,
      \<lparr>Filename = ''c'', URL = ''u3'', Size = 10485760, DownloadURL = ''d3''\<rparr>]
   = [\<lparr>Filename = ''b'', URL = ''u2'', Size = 5242880, DownloadURL = ''d2''\<rparr>,
      \<lparr>Filename = ''c'', URL = ''u3'', Size = 10485760, DownloadURL = ''d3''\<rparr>]"
    by (simp add: run_filter_def SizeMB_def float64_exact)
  show ?thesis
    using exact example by (simp add: run_filter_def SizeMB_def)
qed

theorem run_filter_exact_sizes_witness:
  "\<bar>Size \<lparr>Filename = ''a'', URL = ''u1'', Size = 1048576, DownloadURL = ''''\<rparr>\<bar> \<le> 2 ^ 53 \<and>
   \<bar>Size \<lparr>Filename = ''b'', URL = ''u2'', Size = 2097152, DownloadURL = ''''\<rparr>\<bar> \<le> 2 ^ 53 \<and>
   run_filter 2
     [\<lparr>Filename = ''a'', URL = ''u1'', Size = 1048576, DownloadURL = ''''\<rparr>,
      \<lparr>Filename = ''b'', URL = ''u2'', Size = 2097152, DownloadURL = ''''\<rparr>]
   = [\<lparr>Filename = ''b'', URL = ''u2'', Size = 2097152, DownloadURL = ''''\<rparr>] \<and>
   run_filter 0 [\<lparr>Filename = ''a'', URL = ''u1'', Size = 0, DownloadURL = ''''\<rparr>]
   = [\<lparr>Filename = ''a'', URL = ''u1'', Size = 0, DownloadURL = ''''\<rparr>] \<and>
   run_filter (- 1) [\<lparr>Filename = ''a'', URL = ''u1'', Size = 7, DownloadURL = ''''\<rparr>]
   = [\<lparr>Filename = ''a'', URL = ''u1'', Size = 7, DownloadURL = ''''\<rparr>]"
proof -
  let ?links = "[\<lparr>Filename = ''a'', URL = ''u1'', Size = 1048576, DownloadURL = ''''\<rparr>,
                 \<lparr>Filename = ''b'', URL = ''u2'', Size = 2097152, DownloadURL = ''''\<rparr>]"
  have small: "\<forall>l\<in>set ?links. \<bar>Size l\<bar> \<le> 2 ^ 53"
    by simp
  from small
    run_filter_exact_sizes [of 2 ?links]
    run_filter_exact_sizes
      [of 0 "[\<lparr>Filename = ''a'', URL = ''u1'', Size = 0, DownloadURL = ''''\<rparr>]"]
    run_filter_exact_sizes
      [of "- 1" "[\<lparr>Filename = ''a'', URL = ''u1'', Size = 7, DownloadURL = ''''\<rparr>]"]
  show ?thesis
    by (simp add: float64_exact)
qed

section \<open>Properties of the flattener over decoded JSON\<close>

subsection \<open>Paths\<close>

text \<open>A directory passes to its children the path the specification's rule gives.\<close>

lemma directory_path_rule:
  assumes "map_of v ''e'' = Some e"
    and "(case map_of v ''n'' of None \<Rightarrow> Inr [] | Some n \<Rightarrow> asString n) = Inr dirName"
  shows "flattenTreeWithPath (JObj v) cur = flattenTreeWithPath e (spec_childPath cur dirName)"
  using assms by (simp add: spec_childPath_def)

text \<open>A file with a non-empty name gets the path the specification's rule gives.\<close>

lemma file_path_rule:
  assumes "map_of v ''e'' = None" and "map_of v ''l'' = Some (JStr link)"
    and "map_of v ''n'' = Some (JStr name)" and "map_of v ''s'' = Some (JNum sz)"
    and "name \<noteq> []"
  shows "flattenTreeWithPath (JObj v) cur =
     Inr [\<lparr>fe_Link = link, fe_Path = spec_childPath cur name, fe_Name = name, fe_Size = int64 sz\<rparr>]"
  using assms by (simp add: spec_childPath_def asString_def asFloat64_def)

text \<open>The two examples of the specification.\<close>

lemma flatten_examples:
  "flattenTree (JArr [JObj [(''n'', JStr ''movies''),
       (''e'', JArr [JObj [(''n'', JStr ''a.mkv''), (''l'', JStr ''L''), (''s'', JNum 7)]])]])
     = Inr [\<lparr>fe_Link = ''L'', fe_Path = ''movies/a.mkv'', fe_Name = ''a.mkv'', fe_Size = 7\<rparr>]"
  "flattenTree (JArr [JObj [(''n'', JStr ''''),
       (''e'', JArr [JObj [(''n'', JStr ''b.mkv''), (''l'', JStr ''L''), (''s'', JNum 7)]])]])
     = Inr [\<lparr>fe_Link = ''L'', fe_Path = ''b.mkv'', fe_Name = ''b.mkv'', fe_Size = 7\<rparr>]"
  by (simp_all add: flattenTree_def asString_def asFloat64_def int64_def)

text \<open>
  C4, at the input where the code leaves the rule. A file whose name is empty, inside
  the directory \<open>movies\<close>, is emitted with the path \<open>movies/\<close> by both flatteners: the
  file branch tests only whether the current path is empty and then appends a slash
  and the name, whereas the directory branch also tests the name. The rule of the
  specification gives \<open>movies\<close>.
\<close>

theorem empty_file_name_path:
  "flattenTree (JArr [JObj [(''n'', JStr ''movies''),
       (''e'', JArr [JObj [(''n'', JStr ''''), (''l'', JStr ''L''), (''s'', JNum 7)]])]])
     = Inr [\<lparr>fe_Link = ''L'', fe_Path = ''movies/'', fe_Name = '''', fe_Size = 7\<rparr>] \<and>
   flattenTree_typed [TorrentNode ''movies'' '''' 0 [TorrentNode '''' ''L'' 7 []]]
     = [\<lparr>fe_Link = ''L'', fe_Path = ''movies/'', fe_Name = '''', fe_Size = 7\<rparr>] \<and>
   spec_childPath (spec_childPath '''' ''movies'') '''' = ''movies''"
  by (simp add: flattenTree_def asString_def asFloat64_def int64_def IsFile_def IsDirectory_def
        spec_childPath_def)

subsection \<open>Nodes that are neither file nor directory\<close>

lemma malformed_skipped: "malformed node \<Longrightarrow> flattenTreeWithPath node cur = Inr []"
  by (cases node) (auto split: option.splits)

lemma flattenItems_append:
  "flattenItems (xs @ ys) cur =
     (case flattenItems xs cur of
        Inl p \<Rightarrow> Inl p
      | Inr a \<Rightarrow> (case flattenItems ys cur of Inl p \<Rightarrow> Inl p | Inr b \<Rightarrow> Inr (a @ b)))"
  by (induction xs) (auto split: sum.splits)

lemma malformed_transparent:
  "malformed node \<Longrightarrow> flattenItems (xs @ node # ys) cur = flattenItems (xs @ ys) cur"
  by (simp add: flattenItems_append malformed_skipped split: sum.splits)

lemma well_typed_items:
  "list_all (\<lambda>j. \<forall>cur. \<exists>fs. flattenTreeWithPath j cur = Inr fs) items \<Longrightarrow>
     \<exists>fs. flattenItems items cur = Inr fs"
proof (induction items)
  case Nil
  then show ?case by simp
next
  case (Cons item rest)
  then have "\<exists>fs. flattenTreeWithPath item cur = Inr fs" and "\<exists>gs. flattenItems rest cur = Inr gs"
    by simp_all
  then show ?case by auto
qed

lemma well_typed_total: "well_typed j \<Longrightarrow> \<exists>fs. flattenTreeWithPath j cur = Inr fs"
proof (induction j arbitrary: cur rule: well_typed.induct)
  case (wt_arr items)
  then have "list_all (\<lambda>j. \<forall>cur. \<exists>fs. flattenTreeWithPath j cur = Inr fs) items"
    by (simp add: list_all_iff)
  then show ?case using well_typed_items by simp
next
  case (wt_dir v e)
  then show ?case by (auto simp: asString_def)
next
  case (wt_file v l n x)
  then show ?case by (simp add: asString_def asFloat64_def)
next
  case (wt_other v)
  then show ?case by (auto split: option.splits)
qed simp_all

lemma malformed_skipped_v1: "malformed node \<Longrightarrow> flattenTree_v1 node = Inr []"
  by (cases node) (auto split: option.splits)

lemma flattenItems_v1_append:
  "flattenItems_v1 (xs @ ys) =
     (case flattenItems_v1 xs of
        Inl p \<Rightarrow> Inl p
      | Inr a \<Rightarrow> (case flattenItems_v1 ys of Inl p \<Rightarrow> Inl p | Inr b \<Rightarrow> Inr (a @ b)))"
  by (induction xs) (auto split: sum.splits)

lemma malformed_transparent_v1:
  "malformed node \<Longrightarrow> flattenItems_v1 (xs @ node # ys) = flattenItems_v1 (xs @ ys)"
  by (simp add: flattenItems_v1_append malformed_skipped_v1 split: sum.splits)

lemma well_typed_items_v1:
  "list_all (\<lambda>j. \<exists>fs. flattenTree_v1 j = Inr fs) items \<Longrightarrow> \<exists>fs. flattenItems_v1 items = Inr fs"
proof (induction items)
  case Nil
  then show ?case by simp
next
  case (Cons item rest)
  then have "\<exists>fs. flattenTree_v1 item = Inr fs" and "\<exists>gs. flattenItems_v1 rest = Inr gs"
    by simp_all
  then show ?case by auto
qed

lemma well_typed_total_v1: "well_typed j \<Longrightarrow> \<exists>fs. flattenTree_v1 j = Inr fs"
proof (induction j rule: well_typed.induct)
  case (wt_arr items)
  then have "list_all (\<lambda>j. \<exists>fs. flattenTree_v1 j = Inr fs) items"
    by (simp add: list_all_iff)
  then show ?case using well_typed_items_v1 by simp
next
  case (wt_dir v e)
  then show ?case by simp
next
  case (wt_file v l n x)
  then show ?case by (simp add: asString_def asFloat64_def)
next
  case (wt_other v)
  then show ?case by (auto split: option.splits)
qed simp_all

text \<open>
  C5 as stated fails: flattening is not total on arbitrary node shapes. A directory
  whose name is a number, and an object with link, name and size whose size is a
  string, make the unchecked type assertions panic; the second does so in the
  earlier flattener as well.
\<close>

theorem flatten_type_assertion_panics:
  "flattenTree (JArr [JObj [(''n'', JNum 5), (''e'', JArr [])]]) = Inl TypeAssertion \<and>
   flattenTree (JArr [JObj [(''n'', JStr ''a''), (''l'', JStr ''L''), (''s'', JStr ''big'')]])
     = Inl TypeAssertion \<and>
   flattenTree_v1 (JArr [JObj [(''n'', JStr ''a''), (''l'', JStr ''L''), (''s'', JStr ''big'')]])
     = Inl TypeAssertion"
  by (simp add: flattenTree_def asString_def asFloat64_def)

text \<open>
  C5 as amended, for the flattener with paths and for the earlier one without. A node
  that is neither a file (link and size) nor a directory (children) yields no entry,
  and a list of nodes that contains it flattens exactly as the list without it,
  whatever the other nodes do. Flattening returns a list of entries on every tree in
  which the members the code asserts a type for have that type.
\<close>

theorem malformed_node_skipped:
  "(malformed node \<longrightarrow>
      flattenTreeWithPath node cur = Inr [] \<and>
      flattenItems (xs @ node # ys) cur = flattenItems (xs @ ys) cur \<and>
      flattenTree_v1 node = Inr [] \<and>
      flattenItems_v1 (xs @ node # ys) = flattenItems_v1 (xs @ ys)) \<and>
   (well_typed tree \<longrightarrow>
      (\<exists>fs. flattenTreeWithPath tree cur = Inr fs) \<and> (\<exists>fs. flattenTree_v1 tree = Inr fs))"
  using malformed_skipped [of node cur] malformed_transparent [of node xs ys cur]
        malformed_skipped_v1 [of node] malformed_transparent_v1 [of node xs ys]
        well_typed_total [of tree cur] well_typed_total_v1 [of tree]
  by blast

theorem malformed_node_skipped_witness:
  "malformed (JObj [(''n'', JStr ''x''), (''l'', JStr ''U'')]) \<and>
   well_typed (JArr [JObj [(''n'', JStr ''d''), (''e'', JArr [JNum 3])], JNull]) \<and>
   flattenItems
     [JObj [(''n'', JStr ''a''), (''l'', JStr ''A''), (''s'', JNum 1)],
      JObj [(''n'', JStr ''x''), (''l'', JStr ''U'')],
      JObj [(''n'', JStr ''b''), (''l'', JStr ''B''), (''s'', JNum 2)]] ''d''
     = Inr [\<lparr>fe_Link = ''A'', fe_Path = ''d/a'', fe_Name = ''a'', fe_Size = 1\<rparr>,
            \<lparr>fe_Link = ''B'', fe_Path = ''d/b'', fe_Name = ''b'', fe_Size = 2\<rparr>] \<and>
   flattenItems_v1
     [JObj [(''n'', JStr ''a''), (''l'', JStr ''A''), (''s'', JNum 1)],
      JObj [(''n'', JStr ''x''), (''l'', JStr ''U'')],
      JObj [(''n'', JStr ''b''), (''l'', JStr ''B''), (''s'', JNum 2)]]
     = Inr [\<lparr>v1_Link = ''A'', v1_Name = ''a'', v1_Size = 1\<rparr>,
            \<lparr>v1_Link = ''B'', v1_Name = ''b'', v1_Size = 2\<rparr>] \<and>
   (\<exists>fs. flattenTreeWithPath (JArr [JObj [(''n'', JStr ''d''), (''e'', JArr [JNum 3])], JNull]) []
           = Inr fs) \<and>
   (\<exists>fs. flattenTree_v1 (JArr [JObj [(''n'', JStr ''d''), (''e'', JArr [JNum 3])], JNull]) = Inr fs)"
proof -
  have m: "malformed (JObj [(''n'', JStr ''x''), (''l'', JStr ''U'')])"
    by simp
  have "well_typed (JArr [JNum 3])"
    by (rule wt_arr) (simp add: wt_num)
  then have "well_typed (JObj [(''n'', JStr ''d''), (''e'', JArr [JNum 3])])"
    by (rule wt_dir [rotated]) simp_all
  then have w: "well_typed (JArr [JObj [(''n'', JStr ''d''), (''e'', JArr [JNum 3])], JNull])"
    by (intro wt_arr) (simp add: wt_null)
  from m w
    malformed_node_skipped
      [of "JObj [(''n'', JStr ''x''), (''l'', JStr ''U'')]" "''d''"
          "[JObj [(''n'', JStr ''a''), (''l'', JStr ''A''), (''s'', JNum 1)]]"
          "[JObj [(''n'', JStr ''b''), (''l'', JStr ''B''), (''s'', JNum 2)]]"
          "JArr [JObj [(''n'', JStr ''d''), (''e'', JArr [JNum 3])], JNull]"]
    malformed_node_skipped
      [of "JObj [(''n'', JStr ''x''), (''l'', JStr ''U'')]" "[]" "[]" "[]"
          "JArr [JObj [(''n'', JStr ''d''), (''e'', JArr [JNum 3])], JNull]"]
  show ?thesis
    by (simp add: asString_def asFloat64_def int64_def)
qed

section \<open>The two flatteners compared\<close>

lemma flattenTree_typed_entries: "flattenTree_typed nodes = flattenEntries_typed nodes []"
  by (induction nodes) simp_all

lemma wf_items_agree:
  "list_all (\<lambda>j. \<forall>cur. \<exists>node. decodeNode j = Some node \<and>
        flattenTreeWithPath j cur = Inr (flattenTreeWithPath_typed node cur)) items \<Longrightarrow>
     \<exists>nodes. decodeNodes items = Some nodes \<and> length nodes = length items \<and>
        flattenItems items cur = Inr (flattenEntries_typed nodes cur)"
proof (induction items)
  case Nil
  then show ?case by simp
next
  case (Cons item rest)
  from Cons.prems obtain node where node: "decodeNode item = Some node"
      "flattenTreeWithPath item cur = Inr (flattenTreeWithPath_typed node cur)"
    by auto
  from Cons obtain nodes where nodes: "decodeNodes rest = Some nodes" "length nodes = length rest"
      "flattenItems rest cur = Inr (flattenEntries_typed nodes cur)"
    by auto
  from node nodes show ?case by simp
qed

lemma absent_key: "fst ` set v \<subseteq> K \<Longrightarrow> k \<notin> K \<Longrightarrow> map_of v k = None"
  by (meson map_of_eq_None_iff subsetD)

lemma wf_node_agree:
  "wf_node j \<Longrightarrow> \<exists>node. decodeNode j = Some node \<and>
     flattenTreeWithPath j cur = Inr (flattenTreeWithPath_typed node cur)"
proof (induction j arbitrary: cur rule: wf_node.induct)
  case (wf_file v l n x)
  have "fst ` set v \<subseteq> {''n'', ''l'', ''s''}"
    using wf_file by simp
  then have "map_of v ''e'' = None"
    by (rule absent_key) simp
  with wf_file show ?case
    by (simp add: decodeString_def decodeFloat64_def asString_def asFloat64_def IsFile_def)
next
  case (wf_dir v items)
  have keys: "fst ` set v \<subseteq> {''n'', ''e''}"
    and e: "map_of v ''e'' = Some (JArr items)"
    and n: "map_of v ''n'' = None \<or> (\<exists>n. map_of v ''n'' = Some (JStr n))"
    using wf_dir by simp_all
  have ih: "list_all (\<lambda>j. \<forall>cur. \<exists>node. decodeNode j = Some node \<and>
        flattenTreeWithPath j cur = Inr (flattenTreeWithPath_typed node cur)) items"
    using wf_dir by (simp add: list_all_iff)
  have l: "map_of v ''l'' = None" and s: "map_of v ''s'' = None"
    using keys by (rule absent_key, simp)+
  obtain name where name: "decodeString (map_of v ''n'') = Some name"
      "(case map_of v ''n'' of None \<Rightarrow> Inr [] | Some n \<Rightarrow> asString n) = Inr name"
    using n by (auto simp: decodeString_def asString_def)
  let ?p = "if cur = [] then name else if name \<noteq> [] then cur @ ''/'' @ name else cur"
  from wf_items_agree [OF ih, of ?p]
  obtain nodes where nodes: "decodeNodes items = Some nodes" "length nodes = length items"
      "flattenItems items ?p = Inr (flattenEntries_typed nodes ?p)"
    by blast
  have dec: "decodeNode (JObj v) = Some (TorrentNode name [] 0 nodes)"
    using l s name(1) e nodes(1) by (simp add: decodeString_def decodeFloat64_def)
  have dyn: "flattenTreeWithPath (JObj v) cur = flattenItems items ?p"
    using e name(2) by simp
  have typed: "flattenTreeWithPath_typed (TorrentNode name [] 0 nodes) cur
      = flattenEntries_typed nodes ?p"
    by (cases nodes) (simp_all add: IsFile_def IsDirectory_def)
  show ?case using dec dyn typed nodes(3) by simp
qed

text \<open>
  C10 as stated fails. A node that carries both a link and children decodes without
  error, and the two walkers disagree on it: the walker over \<^verbatim>\<open>any\<close> tests for the
  children first and descends, the walker over \<^verbatim>\<open>TorrentNode\<close> tests for the link first
  and emits the node itself as a file.
\<close>

theorem flatteners_disagree:
  "decodeFiles (JArr [JObj [(''n'', JStr ''d''), (''l'', JStr ''X''),
        (''e'', JArr [JObj [(''n'', JStr ''a''), (''l'', JStr ''L''), (''s'', JNum 5)]])]])
     = Some [TorrentNode ''d'' ''X'' 0 [TorrentNode ''a'' ''L'' 5 []]] \<and>
   flattenTree (JArr [JObj [(''n'', JStr ''d''), (''l'', JStr ''X''),
        (''e'', JArr [JObj [(''n'', JStr ''a''), (''l'', JStr ''L''), (''s'', JNum 5)]])]])
     = Inr [\<lparr>fe_Link = ''L'', fe_Path = ''d/a'', fe_Name = ''a'', fe_Size = 5\<rparr>] \<and>
   flattenTree_typed [TorrentNode ''d'' ''X'' 0 [TorrentNode ''a'' ''L'' 5 []]]
     = [\<lparr>fe_Link = ''X'', fe_Path = ''d'', fe_Name = ''d'', fe_Size = 0\<rparr>]"
  by (simp add: decodeFiles_def flattenTree_def decodeString_def decodeFloat64_def
        asString_def asFloat64_def IsFile_def IsDirectory_def int64_def)

text \<open>
  C10 as amended. On a tree in which every node is a file node (a non-empty link, a
  name and a size, no children) or a directory node (a list of children, possibly
  empty, an optional name, no link), the tree decodes into typed nodes, and
  the walker over the decoded JSON and the walker over the typed nodes return the same
  entries in the same order.
\<close>

theorem flatteners_agree:
  "wf_tree data \<Longrightarrow>
     \<exists>nodes. decodeFiles data = Some nodes \<and> flattenTree data = Inr (flattenTree_typed nodes)"
proof -
  assume "wf_tree data"
  then obtain items where d: "data = JArr items" and wf: "list_all wf_node items"
    by (auto simp: wf_tree_def split: json.splits)
  have "list_all (\<lambda>j. \<forall>cur. \<exists>node. decodeNode j = Some node \<and>
        flattenTreeWithPath j cur = Inr (flattenTreeWithPath_typed node cur)) items"
    using wf wf_node_agree by (simp add: list_all_iff)
  from wf_items_agree [OF this, of "[]"] show ?thesis
    by (auto simp: d decodeFiles_def flattenTree_def flattenTree_typed_entries)
qed

theorem flatteners_agree_witness:
  "wf_tree (JArr [JObj [(''n'', JStr ''empty''), (''e'', JArr [])],
                  JObj [(''e'', JArr [JObj [(''n'', JStr ''a''), (''l'', JStr ''L''), (''s'', JNum 5)]])]]) \<and>
   decodeFiles (JArr [JObj [(''n'', JStr ''empty''), (''e'', JArr [])],
                  JObj [(''e'', JArr [JObj [(''n'', JStr ''a''), (''l'', JStr ''L''), (''s'', JNum 5)]])]])
     = Some [TorrentNode ''empty'' [] 0 [], TorrentNode [] [] 0 [TorrentNode ''a'' ''L'' 5 []]] \<and>
   flattenTree (JArr [JObj [(''n'', JStr ''empty''), (''e'', JArr [])],
                  JObj [(''e'', JArr [JObj [(''n'', JStr ''a''), (''l'', JStr ''L''), (''s'', JNum 5)]])]])
     = Inr (flattenTree_typed
              [TorrentNode ''empty'' [] 0 [], TorrentNode [] [] 0 [TorrentNode ''a'' ''L'' 5 []]])"
proof -
  let ?file = "JObj [(''n'', JStr ''a''), (''l'', JStr ''L''), (''s'', JNum 5)]"
  let ?tree = "JArr [JObj [(''n'', JStr ''empty''), (''e'', JArr [])], JObj [(''e'', JArr [?file])]]"
  have f: "wf_node ?file"
    by (rule wf_file [where l = "''L''" and n = "''a''" and x = 5]) simp_all
  have d1: "wf_node (JObj [(''n'', JStr ''empty''), (''e'', JArr [])])"
    by (rule wf_dir [where items = "[]"]) simp_all
  have d2: "wf_node (JObj [(''e'', JArr [?file])])"
    by (rule wf_dir [where items = "[?file]"]) (simp_all add: f)
  have wf: "wf_tree ?tree"
    by (simp add: wf_tree_def d1 d2)
  have dec: "decodeFiles ?tree
      = Some [TorrentNode ''empty'' [] 0 [], TorrentNode [] [] 0 [TorrentNode ''a'' ''L'' 5 []]]"
    by (simp add: decodeFiles_def decodeString_def decodeFloat64_def)
  from flatteners_agree [OF wf] dec wf show ?thesis
    by simp
qed

section \<open>Properties of the orchestrator\<close>

subsection \<open>Polling\<close>

lemma notReady_TickC:
  "notReady (TickC res) \<longleftrightarrow>
     (\<exists>err. GetTorrentLinks res = Inl err) \<or> GetTorrentLinks res = Inr []"
  by (auto simp: notReady_def split: sum.splits)

lemma loop_failed_poll:
  "GetTorrentLinks res = Inl err \<Longrightarrow>
     WaitForDownloadLinks_loop unlock a warns (TickC res # rest) =
     WaitForDownloadLinks_loop unlock (Suc a) (warns @ [PollFailed err (Suc a)]) rest"
  by simp

lemma loop_no_files:
  "GetTorrentLinks res = Inr [] \<Longrightarrow>
     WaitForDownloadLinks_loop unlock a warns (TickC res # rest) =
     WaitForDownloadLinks_loop unlock (Suc a) warns rest"
  by simp

text \<open>Passes that are not ready are skipped: the loop is where it was, some attempts later.\<close>

lemma loop_skips_notReady:
  "list_all notReady pre \<Longrightarrow>
     WaitForDownloadLinks_loop unlock a warns (pre @ rest) =
     WaitForDownloadLinks_loop unlock (a + length pre) (warns @ pollWarnings a pre) rest"
proof (induction pre arbitrary: a warns)
  case Nil
  then show ?case by simp
next
  case (Cons c pre)
  then have c: "notReady c" and pre: "list_all notReady pre"
    by simp_all
  show ?case
  proof (cases c)
    case (CtxDone err)
    with c show ?thesis by (simp add: notReady_def)
  next
    case (TickC res)
    with c consider err where "GetTorrentLinks res = Inl err" | "GetTorrentLinks res = Inr []"
      by (auto simp: notReady_TickC)
    then show ?thesis
    proof cases
      case 1
      then show ?thesis
        using Cons.IH [OF pre, of "Suc a" "warns @ [PollFailed err (Suc a)]"] TickC by simp
    next
      case 2
      then show ?thesis
        using Cons.IH [OF pre, of "Suc a" warns] TickC by simp
    qed
  qed
qed

text \<open>Every return of the loop is one of its two exits, reached over passes that were not ready.\<close>

lemma loop_exits:
  "WaitForDownloadLinks_loop unlock a warns evs = Some (r, w) \<Longrightarrow>
     (\<exists>pre err rest. evs = pre @ CtxDone err # rest \<and> list_all notReady pre \<and> r = Inl err) \<or>
     (\<exists>pre res links rest. evs = pre @ TickC res # rest \<and> list_all notReady pre \<and>
        GetTorrentLinks res = Inr links \<and> links \<noteq> [] \<and> r = Inr (unrestrictAll unlock 0 links))"
proof (induction evs arbitrary: a warns)
  case Nil
  then show ?case by simp
next
  case (Cons c evs)
  show ?case
  proof (cases c)
    case (CtxDone err)
    with Cons.prems have "r = Inl err" by simp
    with CtxDone have "c # evs = [] @ CtxDone err # evs \<and> list_all notReady [] \<and> r = Inl err"
      by simp
    then show ?thesis by blast
  next
    case (TickC res)
    show ?thesis
    proof (cases "\<exists>links. GetTorrentLinks res = Inr links \<and> links \<noteq> []")
      case True
      then obtain links where l: "GetTorrentLinks res = Inr links" "links \<noteq> []"
        by blast
      with Cons.prems TickC have "r = Inr (unrestrictAll unlock 0 links)"
        by simp
      with TickC l have "c # evs = [] @ TickC res # evs \<and> list_all notReady [] \<and>
          GetTorrentLinks res = Inr links \<and> links \<noteq> [] \<and> r = Inr (unrestrictAll unlock 0 links)"
        by simp
      then show ?thesis by blast
    next
      case False
      then have nr: "notReady c"
        using TickC by (cases "GetTorrentLinks res") (auto simp: notReady_TickC)
      from False Cons.prems TickC obtain a' warns' where
        "WaitForDownloadLinks_loop unlock a' warns' evs = Some (r, w)"
        by (cases "GetTorrentLinks res") (auto split: if_splits)
      from Cons.IH [OF this] show ?thesis
      proof
        assume "\<exists>pre err rest. evs = pre @ CtxDone err # rest \<and> list_all notReady pre \<and> r = Inl err"
        then obtain pre err rest where
          "evs = pre @ CtxDone err # rest" "list_all notReady pre" "r = Inl err"
          by blast
        with nr have "c # evs = (c # pre) @ CtxDone err # rest \<and> list_all notReady (c # pre) \<and>
            r = Inl err"
          by simp
        then show ?thesis by blast
      next
        assume "\<exists>pre res links rest. evs = pre @ TickC res # rest \<and> list_all notReady pre \<and>
          GetTorrentLinks res = Inr links \<and> links \<noteq> [] \<and> r = Inr (unrestrictAll unlock 0 links)"
        then obtain pre res' links rest where
          "evs = pre @ TickC res' # rest" "list_all notReady pre"
          "GetTorrentLinks res' = Inr links" "links \<noteq> []" "r = Inr (unrestrictAll unlock 0 links)"
          by blast
        with nr have "c # evs = (c # pre) @ TickC res' # rest \<and> list_all notReady (c # pre) \<and>
            GetTorrentLinks res' = Inr links \<and> links \<noteq> [] \<and> r = Inr (unrestrictAll unlock 0 links)"
          by simp
        then show ?thesis by blast
      qed
    qed
  qed
qed

text \<open>
  C3. A tick whose poll fails does not end the loop: the failure is logged as a
  warning with the attempt number, and the loop goes on with the next pass; so
  does a tick whose poll succeeds with no file. Whenever the loop returns, it does so
  either because the context was done or because a poll returned at least one link,
  and every pass before that one was a tick that failed or found nothing.
\<close>

theorem polling_survives_failed_polls:
  "(GetTorrentLinks res = Inl err \<longrightarrow>
      WaitForDownloadLinks_loop unlock a warns (TickC res # rest) =
      WaitForDownloadLinks_loop unlock (Suc a) (warns @ [PollFailed err (Suc a)]) rest) \<and>
   (GetTorrentLinks res = Inr [] \<longrightarrow>
      WaitForDownloadLinks_loop unlock a warns (TickC res # rest) =
      WaitForDownloadLinks_loop unlock (Suc a) warns rest) \<and>
   (WaitForDownloadLinks_loop unlock a warns evs = Some (r, w) \<longrightarrow>
      (\<exists>pre e rest'. evs = pre @ CtxDone e # rest' \<and> list_all notReady pre \<and> r = Inl e) \<or>
      (\<exists>pre res' links rest'. evs = pre @ TickC res' # rest' \<and> list_all notReady pre \<and>
         GetTorrentLinks res' = Inr links \<and> links \<noteq> [] \<and>
         r = Inr (unrestrictAll unlock 0 links)))"
  using loop_failed_poll [of res err unlock a warns rest]
        loop_no_files [of res unlock a warns rest]
        loop_exits [of unlock a warns evs r w]
  by blast

theorem polling_survives_failed_polls_witness:
  "GetTorrentLinks SendFailed = Inl RequestError \<and>
   GetTorrentLinks (Body \<lparr>Status = ''success'', Data = \<lparr>mfr_Magnets = []\<rparr>, Error = None\<rparr>) = Inr [] \<and>
   WaitForDownloadLinks_loop (\<lambda>i. SendFailed) 0 []
     [TickC SendFailed,
      TickC (Body \<lparr>Status = ''success'', Data = \<lparr>mfr_Magnets = []\<rparr>, Error = None\<rparr>),
      CtxDone Canceled]
   = Some (Inl Canceled, [PollFailed RequestError 1, TimeoutReached 2]) \<and>
   (\<exists>pre e rest'.
      [TickC SendFailed,
       TickC (Body \<lparr>Status = ''success'', Data = \<lparr>mfr_Magnets = []\<rparr>, Error = None\<rparr>),
       CtxDone Canceled] = pre @ CtxDone e # rest' \<and>
      list_all notReady pre \<and> (Inl Canceled :: ctx_err + Link list) = Inl e)"
proof -
  let ?empty = "Body \<lparr>Status = ''success'', Data = \<lparr>mfr_Magnets = []\<rparr>, Error = None\<rparr>"
  let ?evs = "[TickC SendFailed, TickC ?empty, CtxDone Canceled]"
  have 1: "GetTorrentLinks SendFailed = Inl RequestError"
    and 2: "GetTorrentLinks ?empty = Inr []"
    by (simp_all add: GetTorrentLinks_def)
  from 1
    polling_survives_failed_polls
      [of SendFailed RequestError "\<lambda>i. SendFailed" 0 "[]" "[TickC ?empty, CtxDone Canceled]"]
  have s1: "WaitForDownloadLinks_loop (\<lambda>i. SendFailed) 0 [] ?evs =
      WaitForDownloadLinks_loop (\<lambda>i. SendFailed) 1 [PollFailed RequestError 1]
        [TickC ?empty, CtxDone Canceled]"
    by simp
  from 2
    polling_survives_failed_polls
      [of ?empty _ "\<lambda>i. SendFailed" 1 "[PollFailed RequestError 1]" "[CtxDone Canceled]"]
  have s2: "WaitForDownloadLinks_loop (\<lambda>i. SendFailed) 1 [PollFailed RequestError 1]
        [TickC ?empty, CtxDone Canceled] =
      WaitForDownloadLinks_loop (\<lambda>i. SendFailed) 2 [PollFailed RequestError 1] [CtxDone Canceled]"
    by simp
  have r: "WaitForDownloadLinks_loop (\<lambda>i. SendFailed) 0 [] ?evs
      = Some (Inl Canceled, [PollFailed RequestError 1, TimeoutReached 2])"
    by (simp only: s1 s2) simp
  from r
    polling_survives_failed_polls
      [of _ _ "\<lambda>i. SendFailed" 0 "[]" _ ?evs "Inl Canceled"
          "[PollFailed RequestError 1, TimeoutReached 2]"]
  have "\<exists>pre e rest'. ?evs = pre @ CtxDone e # rest' \<and>
      list_all notReady pre \<and> (Inl Canceled :: ctx_err + Link list) = Inl e"
    by blast
  with 1 2 r show ?thesis
    by blast
qed

subsection \<open>Deadline and cancellation\<close>



subsection \<open>Resolving\<close>

lemma length_unrestrictAll: "length (unrestrictAll unlock k links) = length links"
  by (induction links arbitrary: k) simp_all

lemma nth_unrestrictAll:
  "i < length links \<Longrightarrow>
     unrestrictAll unlock k links ! i = unrestrictLink (unlock (k + i)) (links ! i)"
proof (induction links arbitrary: k i)
  case Nil
  then show ?case by simp
next
  case (Cons l links)
  show ?case
  proof (cases i)
    case 0
    then show ?thesis by simp
  next
    case (Suc j)
    with Cons.prems have "j < length links" by simp
    from Cons.IH [OF this, of "Suc k"] Suc show ?thesis by simp
  qed
qed

lemma unrestrictLink_fresh:
  "unrestrictLink res \<lparr>Filename = n, URL = u, Size = s, DownloadURL = []\<rparr> =
     \<lparr>Filename = n, URL = u, Size = s,
      DownloadURL = (case res of Body r \<Rightarrow> ULink (Data r) | SendFailed \<Rightarrow> [] | ParseFailed \<Rightarrow> [])\<rparr>"
  by (simp add: unrestrictLink_def UnrestrictURL_def split: reply.splits)

text \<open>
  C1. When a poll returns a tree that flattens to \<open>N \<ge> 1\<close> files, the call returns
  without error a list of exactly \<open>N\<close> links, in the order of the files, each with the
  name, link and size of its file. The download URL of a link is the URL its unlock
  request returned, and is empty when that request failed: a failed unlock neither
  fails the call nor changes any other link.
\<close>

theorem resolving_tolerates_failed_unlocks:
  assumes "list_all notReady pre"
    and "mfr_Magnets (Data result) = m # ms"
    and "flattenTree_typed (mf_Files m) = files"
    and "files \<noteq> []"
  shows "\<exists>out. WaitForDownloadLinks_loop unlock a warns (pre @ TickC (Body result) # rest)
            = Some (Inr out, warns @ pollWarnings a pre) \<and>
          length out = length files \<and>
          (\<forall>i<length files.
             Filename (out ! i) = fe_Name (files ! i) \<and>
             URL (out ! i) = fe_Link (files ! i) \<and>
             Size (out ! i) = fe_Size (files ! i) \<and>
             DownloadURL (out ! i) =
               (case unlock i of Body u \<Rightarrow> ULink (Data u) | SendFailed \<Rightarrow> [] | ParseFailed \<Rightarrow> []))"
proof -
  let ?links = "map (\<lambda>file. \<lparr>Filename = fe_Name file, URL = fe_Link file,
                              Size = fe_Size file, DownloadURL = []\<rparr>) files"
  let ?out = "unrestrictAll unlock 0 ?links"
  have g: "GetTorrentLinks (Body result) = Inr ?links"
    using assms(2,3) by (simp add: GetTorrentLinks_def)
  have "WaitForDownloadLinks_loop unlock a warns (pre @ TickC (Body result) # rest)
      = Some (Inr ?out, warns @ pollWarnings a pre)"
    using assms(4) g by (simp add: loop_skips_notReady [OF assms(1)])
  moreover have "length ?out = length files"
    by (simp add: length_unrestrictAll)
  moreover have "\<forall>i<length files.
             Filename (?out ! i) = fe_Name (files ! i) \<and>
             URL (?out ! i) = fe_Link (files ! i) \<and>
             Size (?out ! i) = fe_Size (files ! i) \<and>
             DownloadURL (?out ! i) =
               (case unlock i of Body u \<Rightarrow> ULink (Data u) | SendFailed \<Rightarrow> [] | ParseFailed \<Rightarrow> [])"
    by (simp add: nth_unrestrictAll unrestrictLink_fresh)
  ultimately show ?thesis by blast
qed

theorem resolving_tolerates_failed_unlocks_witness:
  "\<exists>out. WaitForDownloadLinks_loop
       (\<lambda>i. if i = 0 then SendFailed
             else Body \<lparr>Status = ''success'',
                    Data = \<lparr>ULink = ''https://dl/b'', UFilename = ''b'', UFilesize = 2\<rparr>,
                    Error = None\<rparr>)
       0 []
       [TickC SendFailed,
        TickC (Body \<lparr>Status = ''success'',
          Data = \<lparr>mfr_Magnets = [\<lparr>mf_Files = [TorrentNode ''a'' ''A'' 1 [], TorrentNode ''b'' ''B'' 2 []]\<rparr>]\<rparr>,
          Error = None\<rparr>)]
     = Some (Inr out, [PollFailed RequestError 1]) \<and>
     length out = 2 \<and>
     URL (out ! 0) = ''A'' \<and> DownloadURL (out ! 0) = [] \<and>
     URL (out ! 1) = ''B'' \<and> DownloadURL (out ! 1) = ''https://dl/b''"
proof -
  let ?unlock = "\<lambda>i::nat. if i = 0 then SendFailed
             else Body \<lparr>Status = ''success'',
                    Data = \<lparr>ULink = ''https://dl/b'', UFilename = ''b'', UFilesize = 2\<rparr>,
                    Error = None\<rparr>"
  let ?m = "\<lparr>mf_Files = [TorrentNode ''a'' ''A'' 1 [], TorrentNode ''b'' ''B'' 2 []]\<rparr>"
  let ?result = "\<lparr>Status = ''success'', Data = \<lparr>mfr_Magnets = [?m]\<rparr>, Error = None\<rparr>"
  let ?files = "[\<lparr>fe_Link = ''A'', fe_Path = ''a'', fe_Name = ''a'', fe_Size = 1\<rparr>,
                 \<lparr>fe_Link = ''B'', fe_Path = ''b'', fe_Name = ''b'', fe_Size = 2\<rparr>]"
  have 1: "list_all notReady [TickC SendFailed]"
    by (simp add: notReady_def GetTorrentLinks_def)
  have 2: "mfr_Magnets (Data ?result) = ?m # []"
    by simp
  have 3: "flattenTree_typed (mf_Files ?m) = ?files"
    by (simp add: IsFile_def int64_def)
  have 4: "?files \<noteq> []"
    by simp
  from resolving_tolerates_failed_unlocks [OF 1 2 3 4, of ?unlock 0 "[]" "[]"]
  obtain out where out:
    "WaitForDownloadLinks_loop ?unlock 0 [] ([TickC SendFailed] @ [TickC (Body ?result)])
       = Some (Inr out, [] @ pollWarnings 0 [TickC SendFailed])"
    "length out = length ?files"
    "\<forall>i<length ?files.
       Filename (out ! i) = fe_Name (?files ! i) \<and>
       URL (out ! i) = fe_Link (?files ! i) \<and>
       Size (out ! i) = fe_Size (?files ! i) \<and>
       DownloadURL (out ! i) =
         (case ?unlock i of Body u \<Rightarrow> ULink (Data u) | SendFailed \<Rightarrow> [] | ParseFailed \<Rightarrow> [])"
    by blast
  from out(3) have "URL (out ! 0) = ''A'' \<and> DownloadURL (out ! 0) = []"
    by simp
  moreover from out(3) have "URL (out ! 1) = ''B'' \<and> DownloadURL (out ! 1) = ''https://dl/b''"
    by simp
  moreover from out(1) have "WaitForDownloadLinks_loop ?unlock 0 []
      [TickC SendFailed, TickC (Body ?result)] = Some (Inr out, [PollFailed RequestError 1])"
    by (simp add: GetTorrentLinks_def)
  moreover from out(2) have "length out = 2"
    by simp
  ultimately show ?thesis by blast
qed

subsection \<open>The first tick\<close>

lemma pollInterval_pos: "0 < pollInterval"
  by (simp add: pollInterval_def)

lemma nextTickAfter_gt: "t < nextTickAfter t"
proof -
  have "pollInterval * (t div pollInterval) + t mod pollInterval = t"
    by (rule mult_div_mod_eq)
  moreover have "t mod pollInterval < pollInterval"
    using pollInterval_pos by simp
  moreover have "nextTickAfter t = pollInterval * (t div pollInterval) + pollInterval"
    by (simp add: nextTickAfter_def algebra_simps)
  ultimately show ?thesis
    by linarith
qed

text \<open>No tick is taken before the ticker's first nominal tick.\<close>

lemma ticks_not_early:
  "pollInterval \<le> nextTick \<Longrightarrow>
     (t, TickC r) \<in> set (timed_cases (doneAt, err) now nextTick polls) \<Longrightarrow>
     pollInterval \<le> t"
proof (induction polls arbitrary: now nextTick)
  case Nil
  then show ?case by (simp split: if_splits)
next
  case (Cons p ps)
  let ?fTick = "max now (nextTick + max 0 (late p))"
  have ft: "pollInterval \<le> ?fTick"
    using Cons.prems(1) by simp
  have nt: "pollInterval \<le> nextTickAfter ?fTick"
    by (rule order_trans [OF ft less_imp_le [OF nextTickAfter_gt]])
  from Cons.prems(2) consider "t = ?fTick"
    | "(t, TickC r) \<in>
         set (timed_cases (doneAt, err) (?fTick + max 0 (took p)) (nextTickAfter ?fTick) ps)"
    by (auto split: if_splits)
  then show ?case
  proof cases
    case 1
    with ft show ?thesis by simp
  next
    case 2
    from Cons.IH [OF nt 2] show ?thesis .
  qed
qed

lemma timed_cases_done_first:
  "doneAt < pollInterval \<Longrightarrow>
     timed_cases (doneAt, err) 0 pollInterval polls = [(max 0 doneAt, CtxDone err)]"
  using pollInterval_pos by (cases polls) auto

text \<open>A run of the clocked model that succeeds on its second tick, 20 seconds in.\<close>

lemma WaitForDownloadLinks_example:
  "WaitForDownloadLinks None 25000000000 1000
     [\<lparr>onTie = False, late = 0, took = 300000000, answer = SendFailed\<rparr>,
      \<lparr>onTie = False, late = 0, took = 300000000, answer = Body \<lparr>Status = ''success'',
         Data = \<lparr>mfr_Magnets = [\<lparr>mf_Files = [TorrentNode ''a'' ''A'' 1 []]\<rparr>]\<rparr>, Error = None\<rparr>\<rparr>]
     (\<lambda>i. Body \<lparr>Status = ''success'',
         Data = \<lparr>ULink = ''https://dl/a'', UFilename = ''a'', UFilesize = 1\<rparr>, Error = None\<rparr>)
   = Some (Inr [\<lparr>Filename = ''a'', URL = ''A'', Size = 1, DownloadURL = ''https://dl/a''\<rparr>],
           [PollFailed RequestError 1])"
  by (simp add: WaitForDownloadLinks_def WithTimeout_def pollInterval_def nextTickAfter_def
        GetTorrentLinks_def IsFile_def int64_def unrestrictLink_def UnrestrictURL_def)

text \<open>
  C9 as stated fails for a timeout just below 10 seconds. With a timeout of 10 seconds
  less one nanosecond the deadline passes before the first tick, but the context's
  channel is closed only a moment after the deadline; when that moment is 2
  nanoseconds, the tick is ready first, \<^verbatim>\<open>select\<close> takes it and a poll is issued. It
  fails, the context being done, and the call returns \<open>DeadlineExceeded\<close> after one
  attempt, not after none.
\<close>

theorem tick_before_late_cancel:
  "(9999999999 :: int) < pollInterval \<and>
   WaitForDownloadLinks None 9999999999 2
     [\<lparr>onTie = False, late = 0, took = 1000000, answer = SendFailed\<rparr>]
     (\<lambda>i. SendFailed)
   = Some (Inl DeadlineExceeded, [PollFailed RequestError 1, TimeoutReached 1])"
  by (simp add: WaitForDownloadLinks_def WithTimeout_def pollInterval_def nextTickAfter_def
        GetTorrentLinks_def)

text \<open>
  C9 as amended. No poll is ever issued before one full interval of 10 seconds has
  passed since the call started, whatever the timeout: every tick that the loop takes
  is taken at 10 seconds or later. When the context's channel is closed before that
  time, the call returns the context's error after zero attempts, whatever the
  service would have answered. That is the case when the timeout and the delay of the
  cancellation together stay below 10 seconds, and the error is then
  \<open>DeadlineExceeded\<close> unless the caller's own context ended first.
\<close>

theorem first_poll_after_interval:
  "((t, TickC r) \<in> set (timed_cases (WithTimeout parent timeout cancelLag) 0 pollInterval polls) \<longrightarrow>
      pollInterval \<le> t) \<and>
   (fst (WithTimeout parent timeout cancelLag) < pollInterval \<longrightarrow>
      WaitForDownloadLinks parent timeout cancelLag polls unlock =
        Some (Inl (snd (WithTimeout parent timeout cancelLag)), [TimeoutReached 0])) \<and>
   (timeout + max 0 cancelLag < pollInterval \<longrightarrow>
      fst (WithTimeout parent timeout cancelLag) < pollInterval) \<and>
   (parent = None \<longrightarrow> snd (WithTimeout parent timeout cancelLag) = DeadlineExceeded)"
proof -
  obtain doneAt err where w: "WithTimeout parent timeout cancelLag = (doneAt, err)"
    by (cases "WithTimeout parent timeout cancelLag")
  have a: "(t, TickC r) \<in> set (timed_cases (WithTimeout parent timeout cancelLag) 0 pollInterval polls) \<longrightarrow>
      pollInterval \<le> t"
    using ticks_not_early [of pollInterval t r doneAt err 0 polls] by (simp add: w)
  have b: "fst (WithTimeout parent timeout cancelLag) < pollInterval \<longrightarrow>
      WaitForDownloadLinks parent timeout cancelLag polls unlock =
        Some (Inl (snd (WithTimeout parent timeout cancelLag)), [TimeoutReached 0])"
    by (simp add: WaitForDownloadLinks_def w timed_cases_done_first)
  have c: "timeout + max 0 cancelLag < pollInterval \<longrightarrow>
      fst (WithTimeout parent timeout cancelLag) < pollInterval"
    by (auto simp: WithTimeout_def Let_def split: option.splits)
  have d: "parent = None \<longrightarrow> snd (WithTimeout parent timeout cancelLag) = DeadlineExceeded"
    by (simp add: WithTimeout_def Let_def)
  from a b c d show ?thesis by blast
qed

theorem first_poll_after_interval_witness:
  "(5000000000 :: int) + max 0 1000 < pollInterval \<and>
   WaitForDownloadLinks None 5000000000 1000
     [\<lparr>onTie = False, late = 0, took = 0, answer = Body \<lparr>Status = ''success'',
         Data = \<lparr>mfr_Magnets = [\<lparr>mf_Files = [TorrentNode ''a'' ''A'' 1 []]\<rparr>]\<rparr>, Error = None\<rparr>\<rparr>]
     (\<lambda>i. SendFailed)
   = Some (Inl DeadlineExceeded, [TimeoutReached 0]) \<and>
   (10000000123, TickC SendFailed) \<in>
     set (timed_cases (WithTimeout None 25000000000 0) 0 pollInterval
        [\<lparr>onTie = False, late = 123, took = 0, answer = SendFailed\<rparr>]) \<and>
   pollInterval \<le> 10000000123"
proof -
  have short: "(5000000000 :: int) + max 0 1000 < pollInterval"
    by (simp add: pollInterval_def)
  have mem: "(10000000123, TickC SendFailed) \<in>
     set (timed_cases (WithTimeout None 25000000000 0) 0 pollInterval
        [\<lparr>onTie = False, late = 123, took = 0, answer = SendFailed\<rparr>])"
    by (simp add: WithTimeout_def pollInterval_def)
  from short mem
    first_poll_after_interval [of _ _ None 5000000000 1000
      "[\<lparr>onTie = False, late = 0, took = 0, answer = Body \<lparr>Status = ''success'',
         Data = \<lparr>mfr_Magnets = [\<lparr>mf_Files = [TorrentNode ''a'' ''A'' 1 []]\<rparr>]\<rparr>, Error = None\<rparr>\<rparr>]"
      "\<lambda>i. SendFailed"]
    first_poll_after_interval [of 10000000123 SendFailed None 25000000000 0
      "[\<lparr>onTie = False, late = 123, took = 0, answer = SendFailed\<rparr>]"]
  show ?thesis
    by simp
qed

end
